theory Spec2Isabelle
  imports Main "HOL-Library.Word" "HOL-Library.Sublist"
begin

section \<open>JavaScript strings and byte chunks\<close>

text \<open>
  A JavaScript string is a sequence of UTF-16 code units; a chunk read from a
  \<open>ReadableStream\<close> of a response body is a \<open>Uint8Array\<close>. String literals of the source
  are written \<open>str ''...''\<close>.
\<close>

type_synonym code_unit = "16 word"
type_synonym jsstring = "code_unit list"
type_synonym byte = "8 word"
type_synonym chunk = "byte list"

definition str :: "string \<Rightarrow> jsstring" where
  "str s = map of_char s"

text \<open>\<open>s.startsWith(p)\<close>.\<close>

definition startsWith :: "jsstring \<Rightarrow> jsstring \<Rightarrow> bool" where
  "startsWith s p = (take (length p) s = p)"

section \<open>The regular expression \<open>/data:\<bslash>s*(\<bslash>/[^\<bslash>r\<bslash>n]*)/g\<close> of the SSE rewrite\<close>

text \<open>
  The character class \<open>\<bslash>s\<close> of ECMAScript: the WhiteSpace and LineTerminator code
  points (TAB, LF, VT, FF, CR, SP, NBSP, U+1680, U+2000..U+200A, U+2028, U+2029, U+202F,
  U+205F, U+3000, U+FEFF).
\<close>

definition isWhiteSpace :: "code_unit \<Rightarrow> bool" where
  "isWhiteSpace u =
     (u = 0x09 \<or> u = 0x0A \<or> u = 0x0B \<or> u = 0x0C \<or> u = 0x0D \<or> u = 0x20 \<or> u = 0xA0
      \<or> u = 0x1680 \<or> (0x2000 \<le> u \<and> u \<le> 0x200A) \<or> u = 0x2028 \<or> u = 0x2029
      \<or> u = 0x202F \<or> u = 0x205F \<or> u = 0x3000 \<or> u = 0xFEFF)"

text \<open>The class \<open>[^\<bslash>r\<bslash>n]\<close>.\<close>

definition notCRLF :: "code_unit \<Rightarrow> bool" where
  "notCRLF u = (u \<noteq> 0x0D \<and> u \<noteq> 0x0A)"

text \<open>
  One attempt of the pattern at the start of \<open>t\<close>: the literal \<open>data:\<close>, then the greedy
  \<open>\<bslash>s*\<close>, then a \<open>/\<close> and the greedy \<open>[^\<bslash>r\<bslash>n]*\<close>. A slash is no white space, so
  giving back white space never helps the match, and the last star is the end of the
  pattern, so it takes all it can. The result is the capture group \<open>rel\<close> and the text
  that follows the match.
\<close>

definition regex_exec :: "jsstring \<Rightarrow> (jsstring \<times> jsstring) option" where
  "regex_exec t =
     (if startsWith t (str ''data:'') then
        (case dropWhile isWhiteSpace (drop 5 t) of
           [] \<Rightarrow> None
         | c # cs \<Rightarrow>
             if c = 0x2F then Some (takeWhile notCRLF (c # cs), dropWhile notCRLF (c # cs))
             else None)
      else None)"

text \<open>
  The replacer callback of the source:
  \<^verbatim>\<open>(m, rel) => { if (rel.startsWith("http://") || rel.startsWith("https://"))
                    return `data: ${rel}`;
                  return `data: ${origin}${rel}`; }\<close>
\<close>

definition replacer :: "jsstring \<Rightarrow> jsstring \<Rightarrow> jsstring" where
  "replacer origin rel =
     (if startsWith rel (str ''http://'') \<or> startsWith rel (str ''https://'')
      then str ''data: '' @ rel
      else str ''data: '' @ origin @ rel)"

lemma regex_exec_shorter:
  "regex_exec t = Some (rel, rest) \<Longrightarrow> length rest < length t"
proof -
  assume a: "regex_exec t = Some (rel, rest)"
  have sw: "startsWith t (str ''data:'')"
    using a by (auto simp: regex_exec_def split: if_splits)
  then have len: "5 \<le> length t"
    by (auto simp: startsWith_def str_def dest: arg_cong [where f = length])
  obtain c cs where u: "dropWhile isWhiteSpace (drop 5 t) = c # cs"
    and r: "rest = dropWhile notCRLF (c # cs)" and c: "c = 0x2F"
    using a sw by (auto simp: regex_exec_def split: list.splits if_splits)
  have "length rest < length (c # cs)"
    unfolding r c using length_dropWhile_le [of notCRLF cs] by (simp add: notCRLF_def)
  also have "\<dots> \<le> length (drop 5 t)"
    using length_dropWhile_le [of isWhiteSpace "drop 5 t"] by (simp add: u)
  also have "\<dots> \<le> length t" by simp
  finally show ?thesis .
qed

text \<open>
  \<open>chunkText.replace(re, replacer)\<close> with the global flag: the text is scanned from the
  left; where the pattern matches, the match is replaced by the callback's result and the
  scan goes on behind the match; elsewhere the code unit is copied.
\<close>

function String_replace :: "jsstring \<Rightarrow> jsstring \<Rightarrow> jsstring" where
  "String_replace origin [] = []"
| "String_replace origin (c # cs) =
     (case regex_exec (c # cs) of
        Some (rel, rest) \<Rightarrow> replacer origin rel @ String_replace origin rest
      | None \<Rightarrow> c # String_replace origin cs)"
  by pat_completeness auto
termination
  by (relation "measure (\<lambda>(origin, t). length t)") (auto dest: regex_exec_shorter)

section \<open>\<open>TextDecoder\<close> and \<open>TextEncoder\<close>\<close>

text \<open>
  \<open>new TextDecoder().decode(value)\<close> is the UTF-8 decoder of the platform, run on one
  chunk from its initial state: a malformed or truncated sequence gives U+FFFD and the
  byte that broke a sequence is read again as the start of the next one. The state is the
  code point so far, the bytes needed and seen, and the bounds of the next continuation
  byte. For a lead byte \<open>b\<close> in a range starting at \<open>L\<close> the bits \<open>b & (L - 1)\<close> are \<open>b - L\<close>,
  and \<open>(cp << 6) | (b & 0x3F)\<close> is \<open>cp * 64 + (b - 0x80)\<close> for a continuation byte.
\<close>

function utf8_decode :: "nat \<Rightarrow> nat \<Rightarrow> nat \<Rightarrow> nat \<Rightarrow> nat \<Rightarrow> chunk \<Rightarrow> nat list" where
  "utf8_decode cp needed seen lo hi [] = (if needed \<noteq> 0 then [0xFFFD] else [])"
| "utf8_decode cp needed seen lo hi (b # bs) =
     (if needed = 0 then
        (if unat b \<le> 0x7F then unat b # utf8_decode 0 0 0 0x80 0xBF bs
         else if 0xC2 \<le> unat b \<and> unat b \<le> 0xDF
           then utf8_decode (unat b - 0xC0) 1 0 0x80 0xBF bs
         else if 0xE0 \<le> unat b \<and> unat b \<le> 0xEF
           then utf8_decode (unat b - 0xE0) 2 0
                  (if unat b = 0xE0 then 0xA0 else 0x80) (if unat b = 0xED then 0x9F else 0xBF) bs
         else if 0xF0 \<le> unat b \<and> unat b \<le> 0xF4
           then utf8_decode (unat b - 0xF0) 3 0
                  (if unat b = 0xF0 then 0x90 else 0x80) (if unat b = 0xF4 then 0x8F else 0xBF) bs
         else 0xFFFD # utf8_decode 0 0 0 0x80 0xBF bs)
      else if unat b < lo \<or> hi < unat b then 0xFFFD # utf8_decode 0 0 0 0x80 0xBF (b # bs)
      else if seen + 1 = needed
        then (cp * 64 + (unat b - 0x80)) # utf8_decode 0 0 0 0x80 0xBF bs
      else utf8_decode (cp * 64 + (unat b - 0x80)) needed (seen + 1) 0x80 0xBF bs)"
  by pat_completeness auto
termination
  by (relation "measure (\<lambda>(cp, needed, seen, lo, hi, bs). 2 * length bs + (if needed = 0 then 0 else 1))")
    auto

text \<open>A code point as UTF-16 code units (a surrogate pair above the BMP).\<close>

definition utf16_units :: "nat \<Rightarrow> jsstring" where
  "utf16_units cp =
     (if cp < 0x10000 then [of_nat cp]
      else [of_nat (0xD800 + (cp - 0x10000) div 0x400), of_nat (0xDC00 + (cp - 0x10000) mod 0x400)])"

text \<open>The decoder drops one leading byte order mark (\<open>ignoreBOM\<close> is false by default).\<close>

fun strip_bom :: "nat list \<Rightarrow> nat list" where
  "strip_bom [] = []"
| "strip_bom (c # cs) = (if c = 0xFEFF then cs else c # cs)"

definition TextDecoder_decode :: "chunk \<Rightarrow> jsstring" where
  "TextDecoder_decode bytes = concat (map utf16_units (strip_bom (utf8_decode 0 0 0 0x80 0xBF bytes)))"

text \<open>
  \<open>new TextEncoder().encode(s)\<close>: the code units are read as code points (a surrogate pair
  is one code point, a lone surrogate becomes U+FFFD) and written in UTF-8.
\<close>

definition isHigh :: "code_unit \<Rightarrow> bool" where
  "isHigh u = (0xD800 \<le> u \<and> u \<le> 0xDBFF)"

definition isLow :: "code_unit \<Rightarrow> bool" where
  "isLow u = (0xDC00 \<le> u \<and> u \<le> 0xDFFF)"

fun code_points :: "jsstring \<Rightarrow> nat list" where
  "code_points [] = []"
| "code_points [u] = (if isHigh u \<or> isLow u then [0xFFFD] else [unat u])"
| "code_points (u # v # rest) =
     (if isHigh u then
        (if isLow v
         then (0x10000 + (unat u - 0xD800) * 0x400 + (unat v - 0xDC00)) # code_points rest
         else 0xFFFD # code_points (v # rest))
      else if isLow u then 0xFFFD # code_points (v # rest)
      else unat u # code_points (v # rest))"

definition utf8_bytes :: "nat \<Rightarrow> chunk" where
  "utf8_bytes cp =
     (if cp < 0x80 then [of_nat cp]
      else if cp < 0x800 then [of_nat (0xC0 + cp div 64), of_nat (0x80 + cp mod 64)]
      else if cp < 0x10000
        then [of_nat (0xE0 + cp div 4096), of_nat (0x80 + cp div 64 mod 64), of_nat (0x80 + cp mod 64)]
      else [of_nat (0xF0 + cp div 262144), of_nat (0x80 + cp div 4096 mod 64),
            of_nat (0x80 + cp div 64 mod 64), of_nat (0x80 + cp mod 64)])"

definition TextEncoder_encode :: "jsstring \<Rightarrow> chunk" where
  "TextEncoder_encode s = concat (map utf8_bytes (code_points s))"

section \<open>The SSE rewrite filter (\<open>rewriteSseResponseToAbsolute\<close>)\<close>

text \<open>
  A response body is a stream: the chunks put into it, in order, and the way it ends, by
  being closed or by an error. From a stream that is closed a reader gets every chunk and
  then \<open>done\<close>. From a stream that ends in an error a reader gets a prefix of the chunks,
  those it has read by the time of the error, and its next read fails: the chunks still
  queued at that moment are dropped.

  The filter's \<open>while (true)\<close> loop reads one chunk per turn; \<open>pump\<close> is that loop, with the
  variable \<open>firstChunk\<close> as its second argument:
  \<^verbatim>\<open>let chunkText = new TextDecoder().decode(value);
  if (firstChunk && chunkText) { chunkText = chunkText.replace(...); firstChunk = false; }
  controller.enqueue(new TextEncoder().encode(chunkText));\<close>
  An empty string is falsy, so a chunk whose text is empty leaves \<open>firstChunk\<close> as it is.
  When a read fails the loop is left through \<open>catch\<close> and the new stream is ended by
  \<open>controller.error\<close>: of the stream that the function builds, \<open>chunks\<close> are the chunks
  the loop enqueues and \<open>ending\<close> says whether it then calls \<open>controller.close\<close> or
  \<open>controller.error\<close>.
\<close>

datatype stream_end = Closed | ReadError

record byte_stream =
  chunks :: "chunk list"
  ending :: stream_end

fun pump :: "jsstring \<Rightarrow> bool \<Rightarrow> chunk list \<Rightarrow> chunk list" where
  "pump origin firstChunk [] = []"
| "pump origin firstChunk (v # vs) =
     (if firstChunk \<and> TextDecoder_decode v \<noteq> []
      then TextEncoder_encode (String_replace origin (TextDecoder_decode v)) # pump origin False vs
      else TextEncoder_encode (TextDecoder_decode v) # pump origin firstChunk vs)"

text \<open>
  Requests, URLs and responses. A URL is kept as the fields \<open>new URL(...)\<close> gives
  (\<open>protocol\<close> ends with the colon). \<open>Headers\<close> are name-value pairs with lower-case names.
\<close>

type_synonym Headers = "(jsstring \<times> jsstring) list"

record URL =
  protocol :: jsstring
  host :: jsstring
  pathname :: jsstring
  search :: jsstring

record Request =
  request_method :: jsstring
  url :: URL
  request_headers :: Headers

record Response =
  body :: "byte_stream option"
  status :: nat
  statusText :: jsstring
  response_headers :: Headers

definition Headers_get :: "Headers \<Rightarrow> jsstring \<Rightarrow> jsstring option" where
  "Headers_get hs name = map_of hs name"

fun Headers_set :: "Headers \<Rightarrow> jsstring \<Rightarrow> jsstring \<Rightarrow> Headers" where
  "Headers_set [] k v = [(k, v)]"
| "Headers_set ((k', v') # hs) k v =
     (if k' = k then (k, v) # hs else (k', v') # Headers_set hs k v)"

text \<open>\<open>for (const [k, v] of resp.headers) newHeaders.set(k, v ?? "")\<close>.\<close>

definition copy_headers :: "Headers \<Rightarrow> Headers" where
  "copy_headers hs = foldl (\<lambda>newHeaders (k, v). Headers_set newHeaders k v) [] hs"

text \<open>
  The function has two parameters, \<open>resp\<close> and \<open>requestUrl\<close>. Its statement at line 80,
  \<^verbatim>\<open>const origin = `${urlObj.protocol}//${request.headers.get("host") ?? urlObj.host}`;\<close>
  reads a third name, \<open>request\<close>. Nothing binds that name where the function is declared:
  it is no parameter and no local variable of the function, the module declares and imports
  no \<open>request\<close>, and the \<open>request\<close> of the \<open>fetch\<close> handler is a parameter of that other
  function, which passes \<open>request.url\<close> only; the Workers runtime defines no global of
  that name either. \<open>request_binding\<close> is the outcome of resolving the identifier;
  evaluating an identifier that has no binding throws \<open>ReferenceError\<close>.

  The statement stands after the guard \<open>if (!resp.body) return resp\<close> and before
  \<open>new ReadableStream\<close>, outside of any \<open>try\<close>: for a response that has a body the
  exception leaves the function before the stream and its loop exist, and the promise that
  the function returns is rejected.
\<close>

datatype exception = ReferenceError

definition request_binding :: "Request option" where
  "request_binding = None"

definition rewriteSseResponseToAbsolute :: "Response \<Rightarrow> URL \<Rightarrow> exception + Response" where
  "rewriteSseResponseToAbsolute resp requestUrl =
     (case body resp of
        None \<Rightarrow> Inr resp
      | Some b \<Rightarrow>
          (let urlObj = requestUrl in
           case request_binding of
             None \<Rightarrow> Inl ReferenceError
           | Some request \<Rightarrow>
               (let origin = protocol urlObj @ str ''//'' @
                      (case Headers_get (request_headers request) (str ''host'') of
                         Some h \<Rightarrow> h
                       | None \<Rightarrow> host urlObj)
                in Inr \<lparr>body = Some \<lparr>chunks = pump origin True (chunks b), ending = ending b\<rparr>,
                        status = status resp,
                        statusText = statusText resp,
                        response_headers = copy_headers (response_headers resp)\<rparr>)))"

section \<open>The Worker's \<open>fetch\<close> handler\<close>

text \<open>
  The two handlers of the MCP SDK, \<open>MyMCP.serveSSE(path).fetch\<close> and
  \<open>MyMCP.serve(path).fetch\<close>, are not code of this repository: they are parameters.
\<close>

record McpAgent =
  serveSSE :: "jsstring \<Rightarrow> Request \<Rightarrow> Response"
  serve :: "jsstring \<Rightarrow> Request \<Rightarrow> Response"

text \<open>\<open>rawPath.replace(/\<bslash>/+$/, "")\<close>: the trailing run of slashes is removed.\<close>

definition strip_trailing_slashes :: "jsstring \<Rightarrow> jsstring" where
  "strip_trailing_slashes p = rev (dropWhile (\<lambda>c. c = 0x2F) (rev p))"

definition normalized_path :: "URL \<Rightarrow> jsstring" where
  "normalized_path u =
     (let rawPath = (if pathname u = [] then str ''/'' else pathname u);
          path = strip_trailing_slashes rawPath
      in if path = [] then str ''/'' else path)"

definition text_response :: "jsstring \<Rightarrow> nat \<Rightarrow> Headers \<Rightarrow> Response" where
  "text_response t st hs =
     \<lparr>body = Some \<lparr>chunks = [TextEncoder_encode t], ending = Closed\<rparr>,
      status = st, statusText = [], response_headers = hs\<rparr>"

text \<open>
  The handler is an \<open>async\<close> function: an exception thrown while it awaits the filter
  rejects the promise it returns, which is the \<open>Inl\<close> of the result.
\<close>

definition fetch :: "McpAgent \<Rightarrow> Request \<Rightarrow> exception + Response" where
  "fetch MyMCP request =
     (let path = normalized_path (url request) in
      if path = str ''/sse'' \<or> path = str ''/mcp'' then
        rewriteSseResponseToAbsolute (serveSSE MyMCP (str ''/sse'') request) (url request)
      else if path = str ''/sse/message'' \<or> path = str ''/mcp/message'' \<or> path = str ''/mcp'' then
        Inr (serve MyMCP (str ''/sse/message'') request)
      else if path = str ''/'' \<or> path = [] then
        Inr (text_response
          (str ''MCP Worker - endpoints: /sse (SSE entrypoint) and /sse/message (POST JSON-RPC).'')
          200 [(str ''Content-Type'', str ''text/plain'')])
      else Inr (text_response (str ''Not found'') 404 []))"

section \<open>The \<open>calculate\<close> tool\<close>

text \<open>
  A tool result is a list of content blocks (the field \<open>text\<close> is written \<open>text'\<close>). The arithmetic of JavaScript numbers is the
  platform's: the handler is given the four operations, the conversion \<open>String(result)\<close>
  and the test \<open>b === 0\<close> over a type of numbers.
\<close>

record ContentBlock =
  type :: jsstring
  text' :: jsstring

record ToolResult =
  content :: "ContentBlock list"

record 'n Number =
  plus_op :: "'n \<Rightarrow> 'n \<Rightarrow> 'n"
  minus_op :: "'n \<Rightarrow> 'n \<Rightarrow> 'n"
  times_op :: "'n \<Rightarrow> 'n \<Rightarrow> 'n"
  divide_op :: "'n \<Rightarrow> 'n \<Rightarrow> 'n"
  String :: "'n \<Rightarrow> jsstring"
  strictly_equals_0 :: "'n \<Rightarrow> bool"

definition text_result :: "jsstring \<Rightarrow> ToolResult" where
  "text_result t = \<lparr>content = [\<lparr>type = str ''text'', text' = t\<rparr>]\<rparr>"

definition calculate :: "'n Number \<Rightarrow> jsstring \<Rightarrow> 'n \<Rightarrow> 'n \<Rightarrow> ToolResult" where
  "calculate N operation a b =
     (if operation = str ''add'' then text_result (String N (plus_op N a b))
      else if operation = str ''subtract'' then text_result (String N (minus_op N a b))
      else if operation = str ''multiply'' then text_result (String N (times_op N a b))
      else if operation = str ''divide'' then
        (if strictly_equals_0 N b then text_result (str ''Error: Cannot divide by zero'')
         else text_result (String N (divide_op N a b)))
      else text_result (str ''Unknown operation''))"

section \<open>The trust catalog server (\<open>src/index.ts\<close>)\<close>

datatype TrustFactorKey =
    CMP09_complianceSOC_2
  | CMP06_complianceISO_27001
  | PRV01_dataProtection
  | CMP19_complianceCSAStarCert
  | CMP18_complianceFedRAMP
  | IDD01_iddIntegrationPlatform
  | SEC28_securityPenTest
  | CMP04_complianceHIPAA
  | CMP22_complianceISO_27017
  | CMP16_complianceISO_27018
  | SEC33_complianceVulnerabilityScanning
  | CMP25_complianceCOPPA

text \<open>The string value of each member of the enumeration.\<close>

fun key_string :: "TrustFactorKey \<Rightarrow> jsstring" where
  "key_string CMP09_complianceSOC_2 = str ''CMP09_complianceSOC_2''"
| "key_string CMP06_complianceISO_27001 = str ''CMP06_complianceISO_27001''"
| "key_string PRV01_dataProtection = str ''PRV01_dataProtection''"
| "key_string CMP19_complianceCSAStarCert = str ''CMP19_complianceCSAStarCert''"
| "key_string CMP18_complianceFedRAMP = str ''CMP18_complianceFedRAMP''"
| "key_string IDD01_iddIntegrationPlatform = str ''IDD01_iddIntegrationPlatform''"
| "key_string SEC28_securityPenTest = str ''SEC28_securityPenTest''"
| "key_string CMP04_complianceHIPAA = str ''CMP04_complianceHIPAA''"
| "key_string CMP22_complianceISO_27017 = str ''CMP22_complianceISO_27017''"
| "key_string CMP16_complianceISO_27018 = str ''CMP16_complianceISO_27018''"
| "key_string SEC33_complianceVulnerabilityScanning = str ''SEC33_complianceVulnerabilityScanning''"
| "key_string CMP25_complianceCOPPA = str ''CMP25_complianceCOPPA''"

text \<open>
  Modelled from the spec: the shape of a catalog entry, which the code leaves as \<open>any\<close>
  (section 3: \<open>TrustFactors\<close> a collection of key strings, \<open>TeamsAppId\<close> and
  \<open>OfficeAssetId\<close> each a string or absent). \<open>None\<close> is the value \<open>undefined\<close> of an
  absent field; for \<open>TrustFactors\<close> it also stands for a value that is no array.
\<close>

record CatalogEntry =
  TrustFactors :: "jsstring list option"
  TeamsAppId :: "jsstring option"
  OfficeAssetId :: "jsstring option"

type_synonym catalog = "CatalogEntry list"

subsection \<open>\<open>fetchTrustCatalog\<close>\<close>

text \<open>
  The module variable \<open>trustCatalogCache\<close> is the state; \<open>fetches\<close> counts the outbound
  requests issued so far. The network's answer is the response's \<open>ok\<close> flag and the
  value of \<open>response.json()\<close> (\<open>None\<close> when the body is no JSON and the promise rejects).
\<close>

record state =
  trustCatalogCache :: "catalog option"
  fetches :: nat

record fetch_response =
  ok :: bool
  json :: "catalog option"

datatype error = Error jsstring | SyntaxError

text \<open>
  An \<open>async\<close> function runs without interruption from one \<open>await\<close> to the next. A call
  of \<open>fetchTrustCatalog\<close> is therefore three segments: up to \<open>await fetch(...)\<close>, from
  there to \<open>await response.json()\<close>, and from there to the \<open>return\<close>.
\<close>

datatype task =
    AwaitingFetch
  | AwaitingJson fetch_response
  | Returned catalog
  | Thrown error

definition call_segment :: "state \<Rightarrow> task \<times> state" where
  "call_segment s =
     (case trustCatalogCache s of
        Some c \<Rightarrow> (Returned c, s)
      | None \<Rightarrow> (AwaitingFetch, s\<lparr>fetches := fetches s + 1\<rparr>))"

definition fetch_resolved :: "fetch_response \<Rightarrow> state \<Rightarrow> task \<times> state" where
  "fetch_resolved response s =
     (if \<not> ok response then (Thrown (Error (str ''Failed to fetch catalog'')), s)
      else (AwaitingJson response, s))"

definition json_resolved :: "fetch_response \<Rightarrow> state \<Rightarrow> task \<times> state" where
  "json_resolved response s =
     (case json response of
        None \<Rightarrow> (Thrown SyntaxError, s)
      | Some c \<Rightarrow> (Returned c, s\<lparr>trustCatalogCache := Some c\<rparr>))"

text \<open>
  One call run alone to its end, the network answering \<open>response\<close>: the three segments
  in a row.
\<close>

fun resume :: "fetch_response \<Rightarrow> task \<times> state \<Rightarrow> task \<times> state" where
  "resume response (AwaitingFetch, s) = fetch_resolved response s"
| "resume response (AwaitingJson r, s) = json_resolved r s"
| "resume response (t, s) = (t, s)"

definition fetchTrustCatalog :: "fetch_response \<Rightarrow> state \<Rightarrow> (error + catalog) \<times> state" where
  "fetchTrustCatalog response s =
     (case resume response (resume response (call_segment s)) of
        (Returned c, s') \<Rightarrow> (Inr c, s')
      | (Thrown e, s') \<Rightarrow> (Inl e, s')
      | (_, s') \<Rightarrow> (Inl SyntaxError, s'))"

text \<open>
  Several calls in flight on the one thread of the event loop: an event starts a new
  call, or resolves the awaited promise of call \<open>i\<close>.
\<close>

datatype event = Call | FetchResolved nat fetch_response | JsonResolved nat

record system =
  mem :: state
  tasks :: "task list"

fun step :: "system \<Rightarrow> event \<Rightarrow> system" where
  "step sys Call =
     (case call_segment (mem sys) of (t, s') \<Rightarrow> \<lparr>mem = s', tasks = tasks sys @ [t]\<rparr>)"
| "step sys (FetchResolved i response) =
     (if i < length (tasks sys) \<and> tasks sys ! i = AwaitingFetch
      then (case fetch_resolved response (mem sys) of
              (t, s') \<Rightarrow> \<lparr>mem = s', tasks = (tasks sys)[i := t]\<rparr>)
      else sys)"
| "step sys (JsonResolved i) =
     (if i < length (tasks sys)
      then (case tasks sys ! i of
              AwaitingJson r \<Rightarrow>
                (case json_resolved r (mem sys) of
                   (t, s') \<Rightarrow> \<lparr>mem = s', tasks = (tasks sys)[i := t]\<rparr>)
            | _ \<Rightarrow> sys)
      else sys)"

definition run :: "event list \<Rightarrow> system \<Rightarrow> system" where
  "run events sys = foldl step sys events"

definition process_start :: system where
  "process_start = \<lparr>mem = \<lparr>trustCatalogCache = None, fetches = 0\<rparr>, tasks = []\<rparr>"

subsection \<open>The \<open>get-appsWithTrustFilter\<close> handler\<close>

text \<open>
  The values the handler takes from an entry are strings or \<open>undefined\<close>. Such a value is
  truthy when it is a non-empty string; \<open>a || b\<close> is \<open>a\<close> when \<open>a\<close> is truthy and \<open>b\<close>
  otherwise; \<open>.filter(Boolean)\<close> keeps the truthy values.
\<close>

definition Boolean :: "jsstring option \<Rightarrow> bool" where
  "Boolean v = (case v of None \<Rightarrow> False | Some s \<Rightarrow> s \<noteq> [])"

definition or_else :: "jsstring option \<Rightarrow> jsstring option \<Rightarrow> jsstring option" where
  "or_else a b = (if Boolean a then a else b)"

text \<open>\<open>Array.isArray(item.TrustFactors) && item.TrustFactors.includes(trustFactorKey)\<close>.\<close>

definition has_trust_factor :: "TrustFactorKey \<Rightarrow> CatalogEntry \<Rightarrow> bool" where
  "has_trust_factor trustFactorKey item =
     (case TrustFactors item of
        None \<Rightarrow> False
      | Some tf \<Rightarrow> key_string trustFactorKey \<in> set tf)"

definition matchingApps :: "TrustFactorKey \<Rightarrow> catalog \<Rightarrow> jsstring option list" where
  "matchingApps trustFactorKey catalog =
     filter Boolean
       (map (\<lambda>item. or_else (TeamsAppId item) (OfficeAssetId item))
          (filter (has_trust_factor trustFactorKey) catalog))"

text \<open>\<open>xs.join("\<bslash>n")\<close>: an element that is \<open>undefined\<close> is written as the empty string.\<close>

fun join :: "jsstring \<Rightarrow> jsstring option list \<Rightarrow> jsstring" where
  "join sep [] = []"
| "join sep [x] = (case x of None \<Rightarrow> [] | Some s \<Rightarrow> s)"
| "join sep (x # y # ys) = (case x of None \<Rightarrow> [] | Some s \<Rightarrow> s) @ sep @ join sep (y # ys)"

definition apps_text :: "TrustFactorKey \<Rightarrow> catalog \<Rightarrow> jsstring" where
  "apps_text trustFactorKey catalog =
     (if length (matchingApps trustFactorKey catalog) \<noteq> 0
      then str ''Matching App IDs for '' @ key_string trustFactorKey @ str '':'' @ [0x0A]
             @ join [0x0A] (matchingApps trustFactorKey catalog)
      else str ''No apps found with trust factor: '' @ key_string trustFactorKey)"

definition get_appsWithTrustFilter ::
    "TrustFactorKey \<Rightarrow> fetch_response \<Rightarrow> state \<Rightarrow> (error + ToolResult) \<times> state" where
  "get_appsWithTrustFilter trustFactorKey response s =
     (case fetchTrustCatalog response s of
        (Inl e, s') \<Rightarrow> (Inl e, s')
      | (Inr catalog, s') \<Rightarrow> (Inr (text_result (apps_text trustFactorKey catalog)), s'))"

section \<open>The listing of app ids, in the words of the specification\<close>

text \<open>
  The specification describes the text of \<open>get-appsWithTrustFilter\<close> as a listing: keep
  the entries whose \<open>TrustFactors\<close> contain the key, take of each its \<open>TeamsAppId\<close> if
  present, else its \<open>OfficeAssetId\<close>, drop the entries with neither, and render the ids.
  The listing is written over the reading \<open>has\<close> of "present": \<open>present\<close> (the field has a
  value) is the reading of the specification's data model, \<open>present_nonempty\<close> (the field
  is a non-empty string) the one the code is compared with below.
\<close>

definition present :: "jsstring option \<Rightarrow> bool" where
  "present v = (v \<noteq> None)"

definition present_nonempty :: "jsstring option \<Rightarrow> bool" where
  "present_nonempty v = (case v of None \<Rightarrow> False | Some s \<Rightarrow> s \<noteq> [])"

definition the_id :: "jsstring option \<Rightarrow> jsstring" where
  "the_id v = (case v of None \<Rightarrow> [] | Some s \<Rightarrow> s)"

definition listed_ids :: "(jsstring option \<Rightarrow> bool) \<Rightarrow> TrustFactorKey \<Rightarrow> catalog \<Rightarrow> jsstring list" where
  "listed_ids has key entries =
     concat (map (\<lambda>item. if has (TeamsAppId item) then [the_id (TeamsAppId item)]
                          else if has (OfficeAssetId item) then [the_id (OfficeAssetId item)]
                          else [])
       (filter (\<lambda>item. case TrustFactors item of None \<Rightarrow> False
                        | Some tf \<Rightarrow> key_string key \<in> set tf) entries))"

fun join_lines :: "jsstring list \<Rightarrow> jsstring" where
  "join_lines [] = []"
| "join_lines [x] = x"
| "join_lines (x # y # ys) = x @ [0x0A] @ join_lines (y # ys)"

definition listing :: "(jsstring option \<Rightarrow> bool) \<Rightarrow> TrustFactorKey \<Rightarrow> catalog \<Rightarrow> jsstring" where
  "listing has key entries =
     (if listed_ids has key entries = []
      then str ''No apps found with trust factor: '' @ key_string key
      else str ''Matching App IDs for '' @ key_string key @ str '':'' @ [0x0A]
             @ join_lines (listed_ids has key entries))"

section \<open>Vocabulary for the properties of the rewrite filter\<close>

text \<open>
  \<open>bytes ''...''\<close> is the chunk holding an ASCII literal. \<open>reencode v\<close> is what the loop
  enqueues for a chunk it does not rewrite: the chunk decoded and encoded again.
\<close>

definition bytes :: "string \<Rightarrow> chunk" where
  "bytes s = map of_char s"

definition reencode :: "chunk \<Rightarrow> chunk" where
  "reencode v = TextEncoder_encode (TextDecoder_decode v)"

text \<open>
  \<open>occurs t\<close>: the pattern matches somewhere in \<open>t\<close>. \<open>String_includes t p\<close> is
  \<open>t.includes(p)\<close>. \<open>atLineEnd t\<close>: \<open>t\<close> is empty or begins with CR or LF, so that a line
  ends where \<open>t\<close> begins. \<open>atLineStart pre\<close>: \<open>pre\<close> is empty or ends with CR or LF, so
  that a line begins behind \<open>pre\<close>.
\<close>

fun occurs :: "jsstring \<Rightarrow> bool" where
  "occurs [] = False"
| "occurs (c # cs) = (regex_exec (c # cs) \<noteq> None \<or> occurs cs)"

fun String_includes :: "jsstring \<Rightarrow> jsstring \<Rightarrow> bool" where
  "String_includes [] p = (p = [])"
| "String_includes (c # cs) p = (startsWith (c # cs) p \<or> String_includes cs p)"

definition atLineEnd :: "jsstring \<Rightarrow> bool" where
  "atLineEnd t = (case t of [] \<Rightarrow> True | c # cs \<Rightarrow> c = 0x0D \<or> c = 0x0A)"

definition atLineStart :: "jsstring \<Rightarrow> bool" where
  "atLineStart pre = (pre = [] \<or> last pre = 0x0D \<or> last pre = 0x0A)"

section \<open>Properties: the tools and the catalog cache\<close>

text \<open>
  Claim C9. For every number \<open>a\<close> and every \<open>b\<close> that is \<open>=== 0\<close>, the handler of
  \<open>calculate\<close> called with the operation \<open>divide\<close> returns an ordinary result whose
  single content block is the text \<open>Error: Cannot divide by zero\<close>. The result is the same
  whatever the division operation \<open>d\<close> is: the handler does not divide.
\<close>

theorem calculate_divide_by_zero:
  "strictly_equals_0 N b \<Longrightarrow>
   calculate (N\<lparr>divide_op := d\<rparr>) (str ''divide'') a b =
     \<lparr>content = [\<lparr>type = str ''text'', text' = str ''Error: Cannot divide by zero''\<rparr>]\<rparr>"
  by (simp add: calculate_def text_result_def str_def)

theorem calculate_divide_by_zero_witness:
  "strictly_equals_0
     \<lparr>plus_op = (+), minus_op = (-), times_op = (*), divide_op = (div),
      String = (\<lambda>n. []), strictly_equals_0 = (\<lambda>n. n = 0)\<rparr> (0 :: int)
   \<and> calculate
     (\<lparr>plus_op = (+), minus_op = (-), times_op = (*), divide_op = (div),
       String = (\<lambda>n. []), strictly_equals_0 = (\<lambda>n. n = 0)\<rparr>\<lparr>divide_op := (\<lambda>x y. 0)\<rparr>)
     (str ''divide'') (7 :: int) 0 =
     \<lparr>content = [\<lparr>type = str ''text'', text' = str ''Error: Cannot divide by zero''\<rparr>]\<rparr>"
  using calculate_divide_by_zero
    [of "\<lparr>plus_op = (+), minus_op = (-), times_op = (*), divide_op = (div),
      String = (\<lambda>n. []), strictly_equals_0 = (\<lambda>n. n = 0)\<rparr>" "0 :: int" "\<lambda>x y. 0" 7]
  by simp

text \<open>
  Claim C6. One call of \<open>fetchTrustCatalog\<close> run to its end, from any state. With a cached
  catalog the call returns it and changes nothing (no fetch is counted). With an empty
  cache it issues one fetch; when the response is not \<open>ok\<close> it throws
  \<open>Error("Failed to fetch catalog")\<close> and the cache stays empty, so that the next call
  fetches again; when the response is \<open>ok\<close> and its body parses to the array \<open>c\<close>, the
  call stores \<open>c\<close> in the cache and returns it.
\<close>

theorem fetchTrustCatalog_contract:
  "(trustCatalogCache s = Some c \<longrightarrow> fetchTrustCatalog response s = (Inr c, s))
   \<and> (trustCatalogCache s = None \<and> \<not> ok response \<longrightarrow>
        fetchTrustCatalog response s =
          (Inl (Error (str ''Failed to fetch catalog'')), s\<lparr>fetches := fetches s + 1\<rparr>)
        \<and> trustCatalogCache (snd (fetchTrustCatalog response s)) = None
        \<and> fetches (snd (fetchTrustCatalog response' (snd (fetchTrustCatalog response s))))
            = fetches s + 2)
   \<and> (trustCatalogCache s = None \<and> ok response \<and> json response = Some c \<longrightarrow>
        fetchTrustCatalog response s =
          (Inr c, s\<lparr>fetches := fetches s + 1, trustCatalogCache := Some c\<rparr>))"
  by (auto simp: fetchTrustCatalog_def call_segment_def fetch_resolved_def json_resolved_def
      split: option.splits)

theorem fetchTrustCatalog_contract_witness:
  "fetchTrustCatalog \<lparr>ok = False, json = None\<rparr>
     \<lparr>trustCatalogCache = Some [\<lparr>TrustFactors = None, TeamsAppId = Some (str ''a''), OfficeAssetId = None\<rparr>],
      fetches = 1\<rparr>
     = (Inr [\<lparr>TrustFactors = None, TeamsAppId = Some (str ''a''), OfficeAssetId = None\<rparr>],
        \<lparr>trustCatalogCache = Some [\<lparr>TrustFactors = None, TeamsAppId = Some (str ''a''), OfficeAssetId = None\<rparr>],
         fetches = 1\<rparr>)
   \<and> fetchTrustCatalog \<lparr>ok = False, json = Some []\<rparr> \<lparr>trustCatalogCache = None, fetches = 0\<rparr>
     = (Inl (Error (str ''Failed to fetch catalog'')), \<lparr>trustCatalogCache = None, fetches = 1\<rparr>)
   \<and> fetchTrustCatalog \<lparr>ok = True, json = Some []\<rparr> \<lparr>trustCatalogCache = None, fetches = 0\<rparr>
     = (Inr [], \<lparr>trustCatalogCache = Some [], fetches = 1\<rparr>)"
  using fetchTrustCatalog_contract
      [of "\<lparr>trustCatalogCache = Some [\<lparr>TrustFactors = None, TeamsAppId = Some (str ''a''), OfficeAssetId = None\<rparr>],
            fetches = 1\<rparr>"
          "[\<lparr>TrustFactors = None, TeamsAppId = Some (str ''a''), OfficeAssetId = None\<rparr>]"
          "\<lparr>ok = False, json = None\<rparr>"]
    fetchTrustCatalog_contract
      [of "\<lparr>trustCatalogCache = None, fetches = 0\<rparr>" "[]" "\<lparr>ok = False, json = Some []\<rparr>"
          "\<lparr>ok = True, json = Some []\<rparr>"]
    fetchTrustCatalog_contract
      [of "\<lparr>trustCatalogCache = None, fetches = 0\<rparr>" "[]" "\<lparr>ok = True, json = Some []\<rparr>"]
  by simp

text \<open>
  Callers that arrive while the cache is empty: each runs its first segment, finds the
  cache empty and issues a fetch of its own.
\<close>

lemma run_calls_empty_cache:
  "trustCatalogCache (mem sys) = None \<Longrightarrow>
   fetches (mem (run (replicate n Call) sys)) = fetches (mem sys) + n
   \<and> tasks (run (replicate n Call) sys) = tasks sys @ replicate n AwaitingFetch"
proof (induction n arbitrary: sys)
  case 0
  then show ?case by (simp add: run_def)
next
  case (Suc n)
  have st: "trustCatalogCache (mem (step sys Call)) = None"
    "fetches (mem (step sys Call)) = fetches (mem sys) + 1"
    "tasks (step sys Call) = tasks sys @ [AwaitingFetch]"
    using Suc.prems by (simp_all add: call_segment_def)
  have "run (replicate (Suc n) Call) sys = run (replicate n Call) (step sys Call)"
    by (simp add: run_def)
  then show ?case using Suc.IH [OF st(1)] st(2,3) by simp
qed

text \<open>
  Claim C5, as stated, fails: two calls that both start before the first fetch resolves
  issue two outbound fetches, and both are left waiting for a response of their own.
\<close>

theorem two_concurrent_calls_two_fetches:
  "fetches (mem (run [Call, Call] process_start)) = 2
   \<and> tasks (run [Call, Call] process_start) = [AwaitingFetch, AwaitingFetch]"
  by (simp add: run_def process_start_def call_segment_def)

text \<open>
  Claim C5, amended. The code keeps no marker of a fetch in flight. Every call that starts
  while the cache is still empty issues its own outbound fetch: \<open>n\<close> calls arriving
  before any fetch resolves issue \<open>n\<close> fetches. Only a call that starts after a
  successful fetch has stored the catalog issues none and returns the stored catalog.
\<close>

theorem each_call_before_population_fetches:
  "fetches (mem (run (replicate n Call) process_start)) = n
   \<and> tasks (run (replicate n Call) process_start) = replicate n AwaitingFetch
   \<and> (trustCatalogCache (mem sys) = Some c \<longrightarrow>
        step sys Call = sys\<lparr>tasks := tasks sys @ [Returned c]\<rparr>)"
  using run_calls_empty_cache [of process_start n]
  by (simp add: process_start_def call_segment_def)

theorem each_call_before_population_fetches_witness:
  "fetches (mem (run (replicate 3 Call) process_start)) = 3
   \<and> tasks (run (replicate 3 Call) process_start) = replicate 3 AwaitingFetch
   \<and> trustCatalogCache (mem \<lparr>mem = \<lparr>trustCatalogCache = Some [], fetches = 1\<rparr>, tasks = [Returned []]\<rparr>)
        = Some []
   \<and> step \<lparr>mem = \<lparr>trustCatalogCache = Some [], fetches = 1\<rparr>, tasks = [Returned []]\<rparr> Call
        = \<lparr>mem = \<lparr>trustCatalogCache = Some [], fetches = 1\<rparr>, tasks = [Returned [], Returned []]\<rparr>"
  using each_call_before_population_fetches
    [of 3 "\<lparr>mem = \<lparr>trustCatalogCache = Some [], fetches = 1\<rparr>, tasks = [Returned []]\<rparr>" "[]"]
  by simp

text \<open>
  The handler's pipeline \<open>filter\<close>, \<open>map\<close>, \<open>filter(Boolean)\<close> and \<open>join\<close> computes the
  listing in which an id counts as present when it is a non-empty string.
\<close>

lemma matchingApps_listed:
  "matchingApps key entries = map Some (listed_ids present_nonempty key entries)"
  by (induction entries)
    (auto simp: matchingApps_def listed_ids_def has_trust_factor_def or_else_def Boolean_def
      present_nonempty_def the_id_def split: option.splits)

lemma join_Some: "join [0x0A] (map Some xs) = join_lines xs"
  by (induction xs rule: join_lines.induct) simp_all

lemma apps_text_listing: "apps_text key entries = listing present_nonempty key entries"
  by (simp add: apps_text_def listing_def matchingApps_listed join_Some)

text \<open>
  Claim C8, as stated, fails on an entry whose \<open>TeamsAppId\<close> is the empty string: the
  field is present, yet \<open>item.TeamsAppId || item.OfficeAssetId\<close> passes over it, and the
  code lists the \<open>OfficeAssetId\<close> where the listing of the claim has the (empty)
  \<open>TeamsAppId\<close>.
\<close>

theorem empty_TeamsAppId_counterexample:
  "apps_text CMP09_complianceSOC_2
     [\<lparr>TrustFactors = Some [str ''CMP09_complianceSOC_2''], TeamsAppId = Some [],
       OfficeAssetId = Some (str ''x'')\<rparr>]
     = str ''Matching App IDs for CMP09_complianceSOC_2:'' @ [0x0A] @ str ''x''
   \<and> listing present CMP09_complianceSOC_2
     [\<lparr>TrustFactors = Some [str ''CMP09_complianceSOC_2''], TeamsAppId = Some [],
       OfficeAssetId = Some (str ''x'')\<rparr>]
     = str ''Matching App IDs for CMP09_complianceSOC_2:'' @ [0x0A]"
  by (simp add: apps_text_def matchingApps_def has_trust_factor_def or_else_def Boolean_def
      listing_def listed_ids_def present_def the_id_def str_def)

text \<open>
  Claim C8, amended. For every key of the enumeration and every catalog the cache
  returns, \<open>get-appsWithTrustFilter\<close> keeps exactly the entries whose \<open>TrustFactors\<close> array
  contains the key, maps each kept entry to its \<open>TeamsAppId\<close> if that is a non-empty
  string, else to its \<open>OfficeAssetId\<close> if that is a non-empty string, drops the entries
  with neither, and returns the text \<open>Matching App IDs for <key>:\<close> followed by the ids,
  one per line, or, when no id is left, \<open>No apps found with trust factor: <key>\<close>.
\<close>

theorem get_appsWithTrustFilter_listing:
  "fetchTrustCatalog response s = (Inr entries, s') \<Longrightarrow>
   get_appsWithTrustFilter key response s =
     (Inr \<lparr>content = [\<lparr>type = str ''text'', text' = listing present_nonempty key entries\<rparr>]\<rparr>, s')"
  by (simp add: get_appsWithTrustFilter_def apps_text_listing text_result_def)

theorem get_appsWithTrustFilter_listing_witness:
  "fetchTrustCatalog \<lparr>ok = True, json = Some
       [\<lparr>TrustFactors = Some [str ''CMP04_complianceHIPAA''], TeamsAppId = Some (str ''t1''), OfficeAssetId = Some (str ''o1'')\<rparr>,
        \<lparr>TrustFactors = Some [str ''CMP04_complianceHIPAA''], TeamsAppId = None, OfficeAssetId = Some (str ''o2'')\<rparr>,
        \<lparr>TrustFactors = Some [str ''CMP04_complianceHIPAA''], TeamsAppId = None, OfficeAssetId = None\<rparr>,
        \<lparr>TrustFactors = Some [str ''PRV01_dataProtection''], TeamsAppId = Some (str ''t4''), OfficeAssetId = None\<rparr>]\<rparr>
     \<lparr>trustCatalogCache = None, fetches = 0\<rparr>
   = (Inr [\<lparr>TrustFactors = Some [str ''CMP04_complianceHIPAA''], TeamsAppId = Some (str ''t1''), OfficeAssetId = Some (str ''o1'')\<rparr>,
        \<lparr>TrustFactors = Some [str ''CMP04_complianceHIPAA''], TeamsAppId = None, OfficeAssetId = Some (str ''o2'')\<rparr>,
        \<lparr>TrustFactors = Some [str ''CMP04_complianceHIPAA''], TeamsAppId = None, OfficeAssetId = None\<rparr>,
        \<lparr>TrustFactors = Some [str ''PRV01_dataProtection''], TeamsAppId = Some (str ''t4''), OfficeAssetId = None\<rparr>],
      \<lparr>trustCatalogCache = Some [\<lparr>TrustFactors = Some [str ''CMP04_complianceHIPAA''], TeamsAppId = Some (str ''t1''), OfficeAssetId = Some (str ''o1'')\<rparr>,
        \<lparr>TrustFactors = Some [str ''CMP04_complianceHIPAA''], TeamsAppId = None, OfficeAssetId = Some (str ''o2'')\<rparr>,
        \<lparr>TrustFactors = Some [str ''CMP04_complianceHIPAA''], TeamsAppId = None, OfficeAssetId = None\<rparr>,
        \<lparr>TrustFactors = Some [str ''PRV01_dataProtection''], TeamsAppId = Some (str ''t4''), OfficeAssetId = None\<rparr>], fetches = 1\<rparr>)
   \<and> fst (get_appsWithTrustFilter CMP04_complianceHIPAA \<lparr>ok = True, json = Some
       [\<lparr>TrustFactors = Some [str ''CMP04_complianceHIPAA''], TeamsAppId = Some (str ''t1''), OfficeAssetId = Some (str ''o1'')\<rparr>,
        \<lparr>TrustFactors = Some [str ''CMP04_complianceHIPAA''], TeamsAppId = None, OfficeAssetId = Some (str ''o2'')\<rparr>,
        \<lparr>TrustFactors = Some [str ''CMP04_complianceHIPAA''], TeamsAppId = None, OfficeAssetId = None\<rparr>,
        \<lparr>TrustFactors = Some [str ''PRV01_dataProtection''], TeamsAppId = Some (str ''t4''), OfficeAssetId = None\<rparr>]\<rparr>
     \<lparr>trustCatalogCache = None, fetches = 0\<rparr>)
   = Inr \<lparr>content = [\<lparr>type = str ''text'',
        text' = str ''Matching App IDs for CMP04_complianceHIPAA:'' @ [0x0A] @ str ''t1'' @ [0x0A] @ str ''o2''\<rparr>]\<rparr>"
proof -
  let ?cat = "[\<lparr>TrustFactors = Some [str ''CMP04_complianceHIPAA''], TeamsAppId = Some (str ''t1''), OfficeAssetId = Some (str ''o1'')\<rparr>,
        \<lparr>TrustFactors = Some [str ''CMP04_complianceHIPAA''], TeamsAppId = None, OfficeAssetId = Some (str ''o2'')\<rparr>,
        \<lparr>TrustFactors = Some [str ''CMP04_complianceHIPAA''], TeamsAppId = None, OfficeAssetId = None\<rparr>,
        \<lparr>TrustFactors = Some [str ''PRV01_dataProtection''], TeamsAppId = Some (str ''t4''), OfficeAssetId = None\<rparr>]"
  have f: "fetchTrustCatalog \<lparr>ok = True, json = Some ?cat\<rparr> \<lparr>trustCatalogCache = None, fetches = 0\<rparr>
     = (Inr ?cat, \<lparr>trustCatalogCache = Some ?cat, fetches = 1\<rparr>)"
    by (simp add: fetchTrustCatalog_def call_segment_def fetch_resolved_def json_resolved_def)
  have l: "listing present_nonempty CMP04_complianceHIPAA ?cat
     = str ''Matching App IDs for CMP04_complianceHIPAA:'' @ [0x0A] @ str ''t1'' @ [0x0A] @ str ''o2''"
    by (simp add: listing_def listed_ids_def present_nonempty_def the_id_def str_def)
  show ?thesis
    using get_appsWithTrustFilter_listing [OF f, of CMP04_complianceHIPAA] f l by simp
qed

section \<open>Properties: the router\<close>

lemma normalized_mcp:
  "normalized_path \<lparr>protocol = p, host = h, pathname = str ''/mcp'', search = q\<rparr> = str ''/mcp''"
  by (simp add: normalized_path_def strip_trailing_slashes_def str_def)

text \<open>
  Claim C1 at the request \<open>POST https://example.com/mcp?sessionId=abc\<close>. The first test
  of the handler, \<open>path === "/sse" || path === "/mcp"\<close>, does not look at the method: the
  request is handed to \<open>serveSSE("/sse")\<close> and the answer goes through the rewrite filter,
  whatever the agent \<open>MyMCP\<close> is. With an agent whose two handlers answer differently,
  the response is the one of \<open>serveSSE\<close>, not the one of \<open>serve("/sse/message")\<close>: the
  disjunct \<open>path === "/mcp"\<close> of the second test is never reached.
\<close>

theorem post_mcp_is_served_as_stream_open:
  "fetch MyMCP
     \<lparr>request_method = str ''POST'',
      url = \<lparr>protocol = str ''https:'', host = str ''example.com'', pathname = str ''/mcp'',
             search = str ''?sessionId=abc''\<rparr>,
      request_headers = [(str ''host'', str ''example.com'')]\<rparr>
   = rewriteSseResponseToAbsolute
       (serveSSE MyMCP (str ''/sse'')
          \<lparr>request_method = str ''POST'',
      url = \<lparr>protocol = str ''https:'', host = str ''example.com'', pathname = str ''/mcp'',
             search = str ''?sessionId=abc''\<rparr>,
      request_headers = [(str ''host'', str ''example.com'')]\<rparr>)
       \<lparr>protocol = str ''https:'', host = str ''example.com'', pathname = str ''/mcp'',
        search = str ''?sessionId=abc''\<rparr>
   \<and> fetch
     \<lparr>serveSSE = (\<lambda>path request. \<lparr>body = None, status = 200, statusText = str ''sse'', response_headers = []\<rparr>),
      serve = (\<lambda>path request. \<lparr>body = None, status = 202, statusText = str ''message'', response_headers = []\<rparr>)\<rparr>
     \<lparr>request_method = str ''POST'',
      url = \<lparr>protocol = str ''https:'', host = str ''example.com'', pathname = str ''/mcp'',
             search = str ''?sessionId=abc''\<rparr>,
      request_headers = [(str ''host'', str ''example.com'')]\<rparr>
   = Inr \<lparr>body = None, status = 200, statusText = str ''sse'', response_headers = []\<rparr>"
proof (intro conjI)
  show "fetch MyMCP
     \<lparr>request_method = str ''POST'',
      url = \<lparr>protocol = str ''https:'', host = str ''example.com'', pathname = str ''/mcp'',
             search = str ''?sessionId=abc''\<rparr>,
      request_headers = [(str ''host'', str ''example.com'')]\<rparr>
   = rewriteSseResponseToAbsolute
       (serveSSE MyMCP (str ''/sse'')
          \<lparr>request_method = str ''POST'',
      url = \<lparr>protocol = str ''https:'', host = str ''example.com'', pathname = str ''/mcp'',
             search = str ''?sessionId=abc''\<rparr>,
      request_headers = [(str ''host'', str ''example.com'')]\<rparr>)
       \<lparr>protocol = str ''https:'', host = str ''example.com'', pathname = str ''/mcp'',
        search = str ''?sessionId=abc''\<rparr>"
    by (simp add: fetch_def normalized_mcp Let_def)
next
  show "fetch
     \<lparr>serveSSE = (\<lambda>path request. \<lparr>body = None, status = 200, statusText = str ''sse'', response_headers = []\<rparr>),
      serve = (\<lambda>path request. \<lparr>body = None, status = 202, statusText = str ''message'', response_headers = []\<rparr>)\<rparr>
     \<lparr>request_method = str ''POST'',
      url = \<lparr>protocol = str ''https:'', host = str ''example.com'', pathname = str ''/mcp'',
             search = str ''?sessionId=abc''\<rparr>,
      request_headers = [(str ''host'', str ''example.com'')]\<rparr>
   = Inr \<lparr>body = None, status = 200, statusText = str ''sse'', response_headers = []\<rparr>"
    by (simp add: fetch_def normalized_mcp Let_def rewriteSseResponseToAbsolute_def)
qed

section \<open>Properties: the regular expression and the global replace\<close>

lemma data_colon: "str ''data:'' = [0x64, 0x61, 0x74, 0x61, 0x3A]"
  by (simp add: str_def)

lemma startsWith_data_append [simp]: "startsWith (str ''data:'' @ t) (str ''data:'')"
  by (simp add: startsWith_def)

lemma startsWith_length: "startsWith t p \<Longrightarrow> length p \<le> length t"
  by (metis startsWith_def length_take min.cobounded1)

lemma regex_exec_Nil [simp]: "regex_exec [] = None"
  by (simp add: regex_exec_def startsWith_def data_colon)

text \<open>The pattern matches a text of its own shape, up to the end of the line.\<close>

lemma regex_exec_match:
  assumes ws: "\<forall>u\<in>set ws. isWhiteSpace u" and tail: "\<forall>u\<in>set tail. notCRLF u"
    and post: "atLineEnd post"
  shows "regex_exec (str ''data:'' @ ws @ 0x2F # tail @ post) = Some (0x2F # tail, post)"
proof -
  have d: "drop 5 (str ''data:'' @ ws @ 0x2F # tail @ post) = ws @ 0x2F # tail @ post"
    by (simp add: data_colon)
  have w: "dropWhile isWhiteSpace (ws @ 0x2F # tail @ post) = 0x2F # tail @ post"
    using ws by (simp add: dropWhile_append2 isWhiteSpace_def)
  have p: "takeWhile notCRLF post = []" "dropWhile notCRLF post = post"
    using post by (cases post; auto simp: atLineEnd_def notCRLF_def)+
  have t: "takeWhile notCRLF (tail @ post) = tail" "dropWhile notCRLF (tail @ post) = post"
    using tail p by (simp_all add: takeWhile_append2 dropWhile_append2)
  show ?thesis
    unfolding regex_exec_def d w using t by (simp add: notCRLF_def)
qed

text \<open>Where no position of \<open>pre\<close> starts a match, \<open>pre\<close> is copied.\<close>

lemma String_replace_skip:
  "(\<And>p. suffix p pre \<Longrightarrow> p \<noteq> [] \<Longrightarrow> regex_exec (p @ s) = None) \<Longrightarrow>
   String_replace origin (pre @ s) = pre @ String_replace origin s"
proof (induction pre)
  case Nil
  then show ?case by simp
next
  case (Cons c cs)
  have "regex_exec ((c # cs) @ s) = None"
    by (rule Cons.prems) simp_all
  moreover have "String_replace origin (cs @ s) = cs @ String_replace origin s"
    by (rule Cons.IH) (simp add: Cons.prems suffix_Cons)
  ultimately show ?case by simp
qed

lemma regex_exec_suffix: "regex_exec t = Some (rel, rest) \<Longrightarrow> suffix rest t"
proof -
  assume a: "regex_exec t = Some (rel, rest)"
  then obtain c cs where u: "dropWhile isWhiteSpace (drop 5 t) = c # cs"
    and r: "rest = dropWhile notCRLF (c # cs)"
    by (auto simp: regex_exec_def split: list.splits if_splits)
  have "suffix rest (c # cs)" unfolding r by (rule suffix_dropWhile)
  also have "suffix (c # cs) (drop 5 t)" using suffix_dropWhile [of isWhiteSpace "drop 5 t"] u by simp
  also have "suffix (drop 5 t) t" by (rule suffix_drop)
  finally show ?thesis .
qed

text \<open>
  Where the text \<open>s\<close> that follows \<open>pre\<close> changes no match that starts in \<open>pre\<close>, the
  replacement of \<open>pre @ s\<close> is the replacement of \<open>pre\<close> followed by that of \<open>s\<close>.
\<close>

lemma String_replace_append:
  "(\<And>p. suffix p pre \<Longrightarrow> p \<noteq> [] \<Longrightarrow>
      regex_exec (p @ s) = map_option (\<lambda>(rel, rest). (rel, rest @ s)) (regex_exec p)) \<Longrightarrow>
   String_replace origin (pre @ s) = String_replace origin pre @ String_replace origin s"
proof (induction origin pre rule: String_replace.induct)
  case (1 origin)
  then show ?case by simp
next
  case (2 origin c cs)
  have here: "regex_exec ((c # cs) @ s) = map_option (\<lambda>(rel, rest). (rel, rest @ s)) (regex_exec (c # cs))"
    by (rule "2.prems") simp_all
  show ?case
  proof (cases "regex_exec (c # cs)")
    case None
    have "String_replace origin (cs @ s) = String_replace origin cs @ String_replace origin s"
      by (rule "2.IH"(1) [OF None]) (simp add: "2.prems" suffix_Cons)
    then show ?thesis using None here by simp
  next
    case (Some m)
    obtain rel rest where m: "m = (rel, rest)" by (cases m)
    have sf: "suffix rest (c # cs)" using Some m by (auto dest: regex_exec_suffix)
    have "String_replace origin (rest @ s) = String_replace origin rest @ String_replace origin s"
    proof (rule "2.IH"(2))
      show "regex_exec (c # cs) = Some (rel, rest)" using Some m by simp
      show "(rel, rest) = (rel, rest)" by simp
      fix p assume "suffix p rest" "p \<noteq> []"
      then show "regex_exec (p @ s) = map_option (\<lambda>(rel, rest). (rel, rest @ s)) (regex_exec p)"
        using sf by (intro "2.prems") (auto intro: suffix_order.trans)
    qed
    then show ?thesis using Some m here by simp
  qed
qed

lemma startsWith_data: "startsWith t (str ''data:'') = (take 5 t = str ''data:'')"
proof -
  have "length (str ''data:'') = 5" by (simp add: str_def)
  then show ?thesis by (simp only: startsWith_def)
qed

text \<open>A code unit that is none of a, t and : cannot continue a started \<open>data:\<close>.\<close>

lemma startsWith_append_boundary:
  assumes c: "c \<noteq> 0x61" "c \<noteq> 0x74" "c \<noteq> 0x3A" and p: "p \<noteq> []"
  shows "startsWith (p @ c # r) (str ''data:'') = startsWith p (str ''data:'')"
proof (cases "5 \<le> length p")
  case True
  then show ?thesis by (simp add: startsWith_data)
next
  case False
  then have len: "length p < 5" by simp
  have r: "\<not> startsWith p (str ''data:'')"
    using len startsWith_length [of p "str ''data:''"] by (auto simp: data_colon)
  have l: "\<not> startsWith (p @ c # r) (str ''data:'')"
  proof
    assume "startsWith (p @ c # r) (str ''data:'')"
    then have eq: "take 5 (p @ c # r) = str ''data:''"
      by (simp only: startsWith_data)
    have "take 5 (p @ c # r) ! length p = c"
      using len by (simp add: nth_append)
    then have "str ''data:'' ! length p = c" using eq by simp
    moreover have "0 < length p" using p by simp
    ultimately show False
      using len c by (auto simp: data_colon nth_Cons' less_Suc_eq numeral_eq_Suc split: if_splits)
  qed
  show ?thesis using l r by simp
qed

lemma not_occurs_suffix: "\<not> occurs pre \<Longrightarrow> suffix p pre \<Longrightarrow> regex_exec p = None"
proof (induction pre)
  case Nil
  then show ?case by simp
next
  case (Cons c cs)
  show ?case
  proof (cases "p = c # cs")
    case True
    then show ?thesis using Cons.prems(1) by (cases "regex_exec (c # cs)") auto
  next
    case False
    then have "suffix p cs" using Cons.prems(2) by (simp add: suffix_Cons)
    then show ?thesis using Cons.IH Cons.prems(1) by simp
  qed
qed

text \<open>Text without an occurrence of the pattern, continued by \<open>data:\<close>, has no match in it.\<close>

lemma regex_exec_before_data:
  assumes none: "regex_exec p = None" and p: "p \<noteq> []"
  shows "regex_exec (p @ str ''data:'' @ r) = None"
proof (cases "startsWith p (str ''data:'')")
  case False
  have "startsWith (p @ 0x64 # (str ''ata:'' @ r)) (str ''data:'') = startsWith p (str ''data:'')"
    by (rule startsWith_append_boundary) (simp_all add: p)
  moreover have "p @ str ''data:'' @ r = p @ 0x64 # (str ''ata:'' @ r)"
    by (simp add: str_def)
  ultimately show ?thesis using False by (simp add: regex_exec_def)
next
  case True
  then have len: "5 \<le> length p" using startsWith_length [of p "str ''data:''"] by (simp add: data_colon)
  have sw: "startsWith (p @ str ''data:'' @ r) (str ''data:'')"
    using True len by (simp add: startsWith_def data_colon)
  have d: "drop 5 (p @ str ''data:'' @ r) = drop 5 p @ str ''data:'' @ r"
    using len by simp
  have nd: "\<not> isWhiteSpace 0x64" by (simp add: isWhiteSpace_def)
  show ?thesis
  proof (cases "\<forall>u\<in>set (drop 5 p). isWhiteSpace u")
    case True
    then have "dropWhile isWhiteSpace (drop 5 p @ str ''data:'' @ r) = str ''data:'' @ r"
      using nd by (simp add: dropWhile_append2 data_colon)
    then show ?thesis using sw d by (simp add: regex_exec_def data_colon)
  next
    case False
    then have ne: "dropWhile isWhiteSpace (drop 5 p) \<noteq> []"
      by (simp add: dropWhile_eq_Nil_conv)
    have app: "dropWhile isWhiteSpace (drop 5 p @ str ''data:'' @ r)
        = dropWhile isWhiteSpace (drop 5 p) @ str ''data:'' @ r"
      using False by (auto simp: dropWhile_append1)
    obtain y ys where y: "dropWhile isWhiteSpace (drop 5 p) = y # ys"
      using ne by (cases "dropWhile isWhiteSpace (drop 5 p)") auto
    have "y \<noteq> 0x2F" using none True y by (auto simp: regex_exec_def split: if_splits)
    then show ?thesis using sw d app y by (simp add: regex_exec_def)
  qed
qed

lemma String_replace_no_occurrence:
  "\<not> occurs pre \<Longrightarrow> String_replace origin (pre @ str ''data:'' @ r) = pre @ String_replace origin (str ''data:'' @ r)"
  by (rule String_replace_skip) (auto intro: regex_exec_before_data not_occurs_suffix)

lemma replacer_relative:
  "replacer origin (0x2F # tail) = str ''data: '' @ origin @ 0x2F # tail"
  by (simp add: replacer_def startsWith_def str_def)

text \<open>The first occurrence of the pattern in a text.\<close>

lemma String_replace_occurrence:
  assumes "\<not> occurs pre" "\<forall>u\<in>set ws. isWhiteSpace u" "\<forall>u\<in>set tail. notCRLF u" "atLineEnd post"
  shows "String_replace origin (pre @ str ''data:'' @ ws @ 0x2F # tail @ post)
    = pre @ str ''data: '' @ origin @ 0x2F # tail @ String_replace origin post"
proof -
  have m: "regex_exec (str ''data:'' @ ws @ 0x2F # tail @ post) = Some (0x2F # tail, post)"
    using assms(2-4) by (rule regex_exec_match)
  have "str ''data:'' @ ws @ 0x2F # tail @ post = 0x64 # (str ''ata:'' @ ws @ 0x2F # tail @ post)"
    by (simp add: str_def)
  then have "String_replace origin (str ''data:'' @ ws @ 0x2F # tail @ post)
      = replacer origin (0x2F # tail) @ String_replace origin post"
    using m by (metis (no_types, lifting) String_replace.simps(2) option.simps(5) prod.simps(2))
  then show ?thesis
    using String_replace_no_occurrence [OF assms(1), of origin "ws @ 0x2F # tail @ post"]
    by (simp add: replacer_relative)
qed

lemma suffix_last: "suffix a b \<Longrightarrow> a \<noteq> [] \<Longrightarrow> last a = last b"
  by (auto simp: suffix_def)

text \<open>A text that ends a line, continued by \<open>data:\<close>: the matches in it stay as they are.\<close>

lemma regex_exec_line_then_data:
  assumes p: "p \<noteq> []" and l: "\<not> notCRLF (last p)"
  shows "regex_exec (p @ str ''data:'' @ r)
    = map_option (\<lambda>(rel, rest). (rel, rest @ str ''data:'' @ r)) (regex_exec p)"
proof (cases "startsWith p (str ''data:'')")
  case False
  have "startsWith (p @ 0x64 # (str ''ata:'' @ r)) (str ''data:'') = startsWith p (str ''data:'')"
    by (rule startsWith_append_boundary) (simp_all add: p)
  moreover have "p @ str ''data:'' @ r = p @ 0x64 # (str ''ata:'' @ r)"
    by (simp add: str_def)
  ultimately show ?thesis using False by (simp add: regex_exec_def)
next
  case True
  then have len: "5 \<le> length p" using startsWith_length [of p "str ''data:''"] by (simp add: data_colon)
  have sw: "startsWith (p @ str ''data:'' @ r) (str ''data:'')"
    using True len by (simp add: startsWith_data)
  have d: "drop 5 (p @ str ''data:'' @ r) = drop 5 p @ str ''data:'' @ r"
    using len by simp
  have nd: "\<not> isWhiteSpace 0x64" by (simp add: isWhiteSpace_def)
  show ?thesis
  proof (cases "\<forall>u\<in>set (drop 5 p). isWhiteSpace u")
    case all: True
    then have e1: "dropWhile isWhiteSpace (drop 5 p @ str ''data:'' @ r) = 0x64 # str ''ata:'' @ r"
      using nd by (simp add: dropWhile_append2 str_def)
    have e2: "dropWhile isWhiteSpace (drop 5 p) = []"
      using all by simp
    have "regex_exec (p @ str ''data:'' @ r) = None"
      unfolding regex_exec_def d e1 by simp
    moreover have "regex_exec p = None"
      unfolding regex_exec_def e2 by simp
    ultimately show ?thesis by simp
  next
    case False
    have app: "dropWhile isWhiteSpace (drop 5 p @ str ''data:'' @ r)
        = dropWhile isWhiteSpace (drop 5 p) @ str ''data:'' @ r"
      using False by (auto simp: dropWhile_append1)
    obtain y ys where y: "dropWhile isWhiteSpace (drop 5 p) = y # ys"
      using False by (cases "dropWhile isWhiteSpace (drop 5 p)") (auto simp: dropWhile_eq_Nil_conv)
    have "suffix (y # ys) p"
      using suffix_dropWhile [of isWhiteSpace "drop 5 p"] suffix_drop [of 5 p] y
      by (auto intro: suffix_order.trans)
    then have lst: "last (y # ys) = last p" by (rule suffix_last) simp
    have ex1: "last (y # ys) \<in> set (y # ys)" by (rule last_in_set) simp
    have ex2: "\<not> notCRLF (last (y # ys))" using l by (simp only: lst not_False_eq_True)
    note ex = ex1 ex2
    have t: "takeWhile notCRLF ((y # ys) @ str ''data:'' @ r) = takeWhile notCRLF (y # ys)"
      using ex by (rule takeWhile_append1)
    have dr: "dropWhile notCRLF ((y # ys) @ str ''data:'' @ r) = dropWhile notCRLF (y # ys) @ str ''data:'' @ r"
      using ex by (rule dropWhile_append1)
    have A: "regex_exec (p @ str ''data:'' @ r)
        = (if y = 0x2F then Some (takeWhile notCRLF ((y # ys) @ str ''data:'' @ r),
                                  dropWhile notCRLF ((y # ys) @ str ''data:'' @ r)) else None)"
      unfolding regex_exec_def d app y using sw by simp
    have B: "regex_exec p
        = (if y = 0x2F then Some (takeWhile notCRLF (y # ys), dropWhile notCRLF (y # ys)) else None)"
      unfolding regex_exec_def y using True by simp
    show ?thesis unfolding A B t dr by simp
  qed
qed

lemma String_replace_line_then_data:
  assumes "pre = [] \<or> \<not> notCRLF (last pre)"
  shows "String_replace origin (pre @ str ''data:'' @ r)
    = String_replace origin pre @ String_replace origin (str ''data:'' @ r)"
proof (cases "pre = []")
  case True
  then show ?thesis by simp
next
  case False
  then have l: "\<not> notCRLF (last pre)" using assms by simp
  show ?thesis
  proof (rule String_replace_append)
    fix p assume p: "suffix p pre" "p \<noteq> []"
    then have "last p = last pre" by (rule suffix_last)
    then show "regex_exec (p @ str ''data:'' @ r)
        = map_option (\<lambda>(rel, rest). (rel, rest @ str ''data:'' @ r)) (regex_exec p)"
      using l p(2) by (intro regex_exec_line_then_data) simp_all
  qed
qed

lemma not_includes_suffix:
  "\<not> String_includes x q \<Longrightarrow> suffix p x \<Longrightarrow> p \<noteq> [] \<Longrightarrow> \<not> startsWith p q"
proof (induction x)
  case Nil
  then show ?case by simp
next
  case (Cons c cs)
  then show ?case by (cases "p = c # cs") (auto simp: suffix_Cons)
qed

text \<open>A text in which \<open>data:\<close> does not occur, up to the end of its line, is copied.\<close>

lemma String_replace_no_data:
  assumes x: "\<not> String_includes x (str ''data:'')" and post: "atLineEnd post"
  shows "String_replace origin (x @ post) = x @ String_replace origin post"
proof (rule String_replace_skip)
  fix p assume p: "suffix p x" "p \<noteq> []"
  have ns: "\<not> startsWith p (str ''data:'')" using x p by (rule not_includes_suffix)
  have "\<not> startsWith (p @ post) (str ''data:'')"
  proof (cases post)
    case Nil
    then show ?thesis using ns by simp
  next
    case (Cons c r)
    then have "c = 0x0D \<or> c = 0x0A" using post by (simp add: atLineEnd_def)
    then have "startsWith (p @ c # r) (str ''data:'') = startsWith p (str ''data:'')"
      using p(2) by (intro startsWith_append_boundary) auto
    then show ?thesis using ns Cons by simp
  qed
  then show "regex_exec (p @ post) = None" by (simp add: regex_exec_def)
qed

text \<open>A line \<open>data: http://...\<close> or \<open>data: https://...\<close> with no further \<open>data:\<close> in it.\<close>

lemma String_replace_absolute_line:
  assumes s: "scheme = str ''http://'' \<or> scheme = str ''https://''"
    and x: "\<not> String_includes (scheme @ rest) (str ''data:'')" and post: "atLineEnd post"
  shows "String_replace origin (str ''data: '' @ scheme @ rest @ post)
    = str ''data: '' @ scheme @ rest @ String_replace origin post"
proof -
  obtain sch where sch: "scheme = 0x68 # sch" using s by (auto simp: str_def)
  have tailpart: "String_replace origin ((scheme @ rest) @ post) = (scheme @ rest) @ String_replace origin post"
    using x post by (rule String_replace_no_data)
  have nh: "\<not> isWhiteSpace 0x68" by (simp add: isWhiteSpace_def)
  have sp: "isWhiteSpace 0x20" by (simp add: isWhiteSpace_def)
  have e0: "regex_exec (0x64 # 0x61 # 0x74 # 0x61 # 0x3A # 0x20 # 0x68 # sch @ rest @ post) = None"
    by (simp add: regex_exec_def nh sp)
  have e1: "regex_exec (0x61 # 0x74 # 0x61 # 0x3A # 0x20 # 0x68 # sch @ rest @ post) = None"
    "regex_exec (0x74 # 0x61 # 0x3A # 0x20 # 0x68 # sch @ rest @ post) = None"
    "regex_exec (0x61 # 0x3A # 0x20 # 0x68 # sch @ rest @ post) = None"
    "regex_exec (0x3A # 0x20 # 0x68 # sch @ rest @ post) = None"
    "regex_exec (0x20 # 0x68 # sch @ rest @ post) = None"
    by (simp_all add: regex_exec_def startsWith_def data_colon)
  have "String_replace origin (str ''data: '' @ scheme @ rest @ post)
      = str ''data: '' @ String_replace origin (scheme @ rest @ post)"
    using e0 e1 by (simp add: str_def sch)
  then show ?thesis using tailpart by simp
qed

lemma String_replace_no_occurs: "\<not> occurs t \<Longrightarrow> String_replace origin t = t"
  using String_replace_skip [of t "[]" origin] by (auto dest: not_occurs_suffix)

lemma atLineEnd_append: "pre \<noteq> [] \<Longrightarrow> atLineEnd pre \<Longrightarrow> atLineEnd (pre @ t)"
  by (cases pre) (simp_all add: atLineEnd_def)

text \<open>Successive occurrences, each ending its line.\<close>

lemma String_replace_occurrences:
  assumes "\<forall>(pre, ws, tail) \<in> set segs.
      \<not> occurs pre \<and> (\<forall>u\<in>set ws. isWhiteSpace u) \<and> (\<forall>u\<in>set tail. notCRLF u)"
    and "\<forall>(pre, ws, tail) \<in> set (tl segs). pre \<noteq> [] \<and> atLineEnd pre"
    and "atLineEnd fin" "\<not> occurs fin"
  shows "String_replace origin
      (concat (map (\<lambda>(pre, ws, tail). pre @ str ''data:'' @ ws @ 0x2F # tail) segs) @ fin)
    = concat (map (\<lambda>(pre, ws, tail). pre @ str ''data: '' @ origin @ 0x2F # tail) segs) @ fin"
  using assms(1,2)
proof (induction segs)
  case Nil
  then show ?case using assms(4) by (simp add: String_replace_no_occurs)
next
  case (Cons seg segs)
  obtain pre ws tail where seg: "seg = (pre, ws, tail)" by (cases seg)
  let ?rest = "concat (map (\<lambda>(pre, ws, tail). pre @ str ''data:'' @ ws @ 0x2F # tail) segs) @ fin"
  have here: "\<not> occurs pre" "\<forall>u\<in>set ws. isWhiteSpace u" "\<forall>u\<in>set tail. notCRLF u"
    using Cons.prems(1) seg by auto
  have le: "atLineEnd ?rest"
  proof (cases segs)
    case Nil
    then show ?thesis using assms(3) by simp
  next
    case (Cons seg' segs')
    obtain pre' ws' tail' where seg': "seg' = (pre', ws', tail')" by (cases seg')
    have "pre' \<noteq> [] \<and> atLineEnd pre'" using Cons.prems(2) Cons seg' by simp
    then have "atLineEnd (pre' @ (str ''data:'' @ ws' @ 0x2F # tail')
        @ concat (map (\<lambda>(pre, ws, tail). pre @ str ''data:'' @ ws @ 0x2F # tail) segs') @ fin)"
      by (simp add: atLineEnd_append)
    then show ?thesis using Cons seg' by simp
  qed
  have ih: "String_replace origin ?rest
      = concat (map (\<lambda>(pre, ws, tail). pre @ str ''data: '' @ origin @ 0x2F # tail) segs) @ fin"
  proof (rule Cons.IH)
    show "\<forall>(pre, ws, tail) \<in> set segs.
      \<not> occurs pre \<and> (\<forall>u\<in>set ws. isWhiteSpace u) \<and> (\<forall>u\<in>set tail. notCRLF u)"
      using Cons.prems(1) by simp
    show "\<forall>(pre, ws, tail) \<in> set (tl segs). pre \<noteq> [] \<and> atLineEnd pre"
      using Cons.prems(2) by (cases segs) simp_all
  qed
  have "String_replace origin (pre @ str ''data:'' @ ws @ 0x2F # tail @ ?rest)
      = pre @ str ''data: '' @ origin @ 0x2F # tail @ String_replace origin ?rest"
    using here le by (rule String_replace_occurrence)
  then show ?case using ih seg by simp
qed

lemma not_includes_tl5:
  "\<not> String_includes (a # b # c # d # e # x) q \<Longrightarrow> \<not> String_includes x q"
  by simp

section \<open>Properties: the loop of the filter, taken alone\<close>

text \<open>
  The facts of this section are about \<open>pump\<close>, the loop of lines 87 to 105, for a given
  value of the variable \<open>origin\<close>. They say what the loop does with the chunks it is given;
  whether the function ever runs it is the matter of the section after this one.
\<close>

lemmas js_eval = str_def bytes_def regex_exec_def startsWith_def isWhiteSpace_def notCRLF_def
  replacer_def TextDecoder_decode_def TextEncoder_encode_def utf16_units_def utf8_bytes_def
  isHigh_def isLow_def

lemma pump_False: "pump origin False vs = map reencode vs"
  by (induction vs) (simp_all add: reencode_def)

lemma pump_first:
  "TextDecoder_decode v \<noteq> [] \<Longrightarrow>
   pump origin True (v # vs) = TextEncoder_encode (String_replace origin (TextDecoder_decode v)) # map reencode vs"
  by (simp add: pump_False)

lemma pump_True:
  "pump origin True vs =
     map reencode (takeWhile (\<lambda>v. TextDecoder_decode v = []) vs) @
     (case dropWhile (\<lambda>v. TextDecoder_decode v = []) vs of
        [] \<Rightarrow> []
      | v # rest \<Rightarrow> TextEncoder_encode (String_replace origin (TextDecoder_decode v)) # map reencode rest)"
  by (induction vs) (simp_all add: pump_False reencode_def)

lemma pump_first_head:
  "hd (pump origin True (v # vs)) = TextEncoder_encode (String_replace origin (TextDecoder_decode v))"
  by simp

text \<open>
  The flag \<open>firstChunk\<close> is cleared only under \<open>firstChunk && chunkText\<close>, and the empty
  string is falsy. After a first chunk whose text is empty (a chunk of no bytes, or a lone
  byte order mark, which the decoder drops) the loop still has \<open>firstChunk\<close> set, and it
  rewrites the \<open>data:\<close> line of the second chunk.
\<close>

lemma second_chunk_rewritten_after_empty_first:
  "pump (str ''https://example.com'') True [[], bytes ''data: /sse/message?sessionId=abc'']
     = [[], bytes ''data: https://example.com/sse/message?sessionId=abc'']
   \<and> pump (str ''https://example.com'') True [[0xEF, 0xBB, 0xBF], bytes ''data: /sse/message?sessionId=abc'']
     = [[], bytes ''data: https://example.com/sse/message?sessionId=abc'']"
  by (simp add: js_eval)

text \<open>
  The loop has two states. In the state \<open>firstChunk = false\<close> every chunk is decoded and
  encoded again, never rewritten. In the state \<open>firstChunk = true\<close> the chunks whose text
  is empty are passed on and leave the state as it is; the first chunk whose text is not
  empty goes through the replacement, and after it, whether or not the replacement changed
  anything, no later chunk is rewritten.
\<close>

lemma passthrough_after_first_text:
  "pump origin False vs = map reencode vs
   \<and> pump origin True vs =
     map reencode (takeWhile (\<lambda>v. TextDecoder_decode v = []) vs) @
     (case dropWhile (\<lambda>v. TextDecoder_decode v = []) vs of
        [] \<Rightarrow> []
      | v # rest \<Rightarrow> TextEncoder_encode (String_replace origin (TextDecoder_decode v)) # map reencode rest)"
  by (rule conjI [OF pump_False pump_True])

text \<open>
  A chunk after the rewritten one is decoded and encoded again, not copied: a byte that is
  no UTF-8, such as the tail of a sequence cut by the chunk boundary, leaves the loop as
  the three bytes of U+FFFD.
\<close>

lemma later_chunk_decoded_and_encoded:
  "pump (str ''https://example.com'') True [bytes ''data: /a'', [0xFF]]
     = [bytes ''data: https://example.com/a'', [0xEF, 0xBF, 0xBD]]"
  by (simp add: js_eval)

text \<open>
  The pattern is not anchored at the start of a line: in a line that begins
  \<open>data: https://\<close> the loop rewrites a later \<open>data:\<close> that is followed by a slash.
\<close>

lemma absolute_line_with_second_data_rewritten:
  "pump (str ''https://example.com'') True [bytes ''data: https://cdn.example.net/data:/x'']
     = [bytes ''data: https://cdn.example.net/data: https://example.com/x'']"
  by (simp add: js_eval)

text \<open>
  Let the text of the first chunk be \<open>pre @ line @ post\<close> with \<open>line\<close> a whole line. If
  \<open>line\<close> is \<open>data: /sse/message?sessionId=abc\<close> and the origin is
  \<open>https://example.com\<close>, the loop writes in its place exactly
  \<open>data: https://example.com/sse/message?sessionId=abc\<close>. If \<open>line\<close> is \<open>data: \<close>
  followed by a URL beginning \<open>http://\<close> or \<open>https://\<close>, and \<open>data:\<close> does not occur
  again in the line, the loop leaves the line as it is. In both cases the text before and
  after the line is replaced on its own.
\<close>

lemma relative_line_rewritten_absolute_line_kept:
  assumes "TextDecoder_decode v = pre @ line @ post" and "atLineStart pre" and "atLineEnd post"
  shows "(line = str ''data: /sse/message?sessionId=abc'' \<longrightarrow>
      pump (str ''https://example.com'') True (v # vs)
        = TextEncoder_encode
            (String_replace (str ''https://example.com'') pre
             @ str ''data: https://example.com/sse/message?sessionId=abc''
             @ String_replace (str ''https://example.com'') post)
          # map reencode vs)
    \<and> ((line = str ''data: http://'' @ rest \<or> line = str ''data: https://'' @ rest)
        \<and> \<not> String_includes (tl line) (str ''data:'') \<longrightarrow>
      pump origin True (v # vs)
        = TextEncoder_encode (String_replace origin pre @ line @ String_replace origin post)
          # map reencode vs)"
proof (intro conjI impI)
  have pre: "pre = [] \<or> \<not> notCRLF (last pre)"
    using assms(2) by (auto simp: atLineStart_def notCRLF_def)
  {
    assume l: "line = str ''data: /sse/message?sessionId=abc''"
    let ?o = "str ''https://example.com''"
    have ne: "TextDecoder_decode v \<noteq> []" using assms(1) l by (simp add: str_def)
    have "String_replace ?o (pre @ str ''data:'' @ str '' /sse/message?sessionId=abc'' @ post)
        = String_replace ?o pre @ String_replace ?o (str ''data:'' @ str '' /sse/message?sessionId=abc'' @ post)"
      using pre by (rule String_replace_line_then_data)
    moreover have "String_replace ?o ([] @ str ''data:'' @ str '' '' @ 0x2F # str ''sse/message?sessionId=abc'' @ post)
        = [] @ str ''data: '' @ ?o @ 0x2F # str ''sse/message?sessionId=abc'' @ String_replace ?o post"
      by (rule String_replace_occurrence)
        (simp_all add: assms(3) str_def isWhiteSpace_def notCRLF_def del: String_replace.simps)
    ultimately have "String_replace ?o (pre @ line @ post)
        = String_replace ?o pre @ str ''data: https://example.com/sse/message?sessionId=abc''
          @ String_replace ?o post"
      by (simp add: l str_def del: String_replace.simps)
    then show "pump ?o True (v # vs)
        = TextEncoder_encode
            (String_replace ?o pre @ str ''data: https://example.com/sse/message?sessionId=abc''
             @ String_replace ?o post) # map reencode vs"
      using pump_first [OF ne, of ?o vs] by (simp only: assms(1))
  }
  {
    assume a: "(line = str ''data: http://'' @ rest \<or> line = str ''data: https://'' @ rest)
        \<and> \<not> String_includes (tl line) (str ''data:'')"
    define scheme where
      "scheme = (if line = str ''data: http://'' @ rest then str ''http://'' else str ''https://'')"
    have s: "scheme = str ''http://'' \<or> scheme = str ''https://''"
      by (simp add: scheme_def)
    have l: "line = str ''data: '' @ scheme @ rest"
    proof (cases "line = str ''data: http://'' @ rest")
      case True
      then have "scheme = str ''http://''" unfolding scheme_def by (rule if_P)
      then show ?thesis using True by (simp add: str_def)
    next
      case False
      then have "scheme = str ''https://''" unfolding scheme_def by (rule if_not_P)
      moreover have "line = str ''data: https://'' @ rest" using a False by simp
      ultimately show ?thesis by (simp add: str_def)
    qed
    have dsp: "str ''data: '' = str ''data:'' @ str '' ''" by (simp add: str_def)
    have ne: "TextDecoder_decode v \<noteq> []" using assms(1) l by (simp add: str_def)
    have "tl line = 0x61 # 0x74 # 0x61 # 0x3A # 0x20 # (scheme @ rest)"
      using l by (simp add: str_def)
    then have x: "\<not> String_includes (scheme @ rest) (str ''data:'')"
      using a not_includes_tl5 by metis
    have "String_replace origin (pre @ str ''data:'' @ (str '' '' @ scheme @ rest @ post))
        = String_replace origin pre @ String_replace origin (str ''data:'' @ (str '' '' @ scheme @ rest @ post))"
      using pre by (rule String_replace_line_then_data)
    moreover have "String_replace origin (str ''data: '' @ scheme @ rest @ post)
        = str ''data: '' @ scheme @ rest @ String_replace origin post"
      using s x assms(3) by (rule String_replace_absolute_line)
    ultimately have "String_replace origin (pre @ line @ post)
        = String_replace origin pre @ line @ String_replace origin post"
      by (simp add: l dsp del: String_replace.simps)
    then show "pump origin True (v # vs)
        = TextEncoder_encode (String_replace origin pre @ line @ String_replace origin post)
          # map reencode vs"
      using pump_first [OF ne, of origin vs] by (simp only: assms(1))
  }
qed

lemma relative_line_rewritten_absolute_line_kept_example:
  "pump (str ''https://example.com'') True
     [bytes ''event: endpoint\<newline>data: /sse/message?sessionId=abc\<newline>\<newline>'']
     = [bytes ''event: endpoint\<newline>data: https://example.com/sse/message?sessionId=abc\<newline>\<newline>'']
   \<and> pump (str ''https://example.com'') True
     [bytes ''event: endpoint\<newline>data: https://example.com/sse/message?sessionId=abc\<newline>\<newline>'']
     = [bytes ''event: endpoint\<newline>data: https://example.com/sse/message?sessionId=abc\<newline>\<newline>'']"
proof -
  let ?o = "str ''https://example.com''"
  let ?pre = "str ''event: endpoint\<newline>''"
  let ?post = "str ''\<newline>\<newline>''"
  let ?rel = "str ''data: /sse/message?sessionId=abc''"
  let ?abs = "str ''data: https://example.com/sse/message?sessionId=abc''"
  let ?v1 = "bytes ''event: endpoint\<newline>data: /sse/message?sessionId=abc\<newline>\<newline>''"
  let ?v2 = "bytes ''event: endpoint\<newline>data: https://example.com/sse/message?sessionId=abc\<newline>\<newline>''"
  have d1: "TextDecoder_decode ?v1 = ?pre @ ?rel @ ?post" by (simp add: js_eval)
  have d2: "TextDecoder_decode ?v2 = ?pre @ ?abs @ ?post" by (simp add: js_eval)
  have s: "atLineStart ?pre" by (simp add: atLineStart_def str_def)
  have e: "atLineEnd ?post" by (simp add: atLineEnd_def str_def)
  have a: "(?abs = str ''data: http://'' @ str ''example.com/sse/message?sessionId=abc''
        \<or> ?abs = str ''data: https://'' @ str ''example.com/sse/message?sessionId=abc'')
      \<and> \<not> String_includes (tl ?abs) (str ''data:'')"
    by (simp add: str_def startsWith_def)
  have r: "String_replace ?o ?pre = ?pre" "String_replace ?o ?post = ?post"
    by (simp_all add: js_eval)
  have enc: "TextEncoder_encode (?pre @ ?abs @ ?post) = ?v2" by (simp add: js_eval)
  have p1: "pump ?o True [?v1] = [?v2]"
    using relative_line_rewritten_absolute_line_kept [OF d1 s e, where vs = "[]"]
    by (simp only: r enc list.map simp_thms)
  have p2: "pump ?o True [?v2] = [?v2]"
    using relative_line_rewritten_absolute_line_kept
      [OF d2 s e, where vs = "[]" and rest = "str ''example.com/sse/message?sessionId=abc''"
        and origin = ?o] a
    by (simp only: r enc list.map simp_thms)
  show ?thesis using p1 p2 by (rule conjI)
qed

text \<open>
  Let the text of the first chunk be a sequence of occurrences of the pattern,
  each \<open>data:\<close>, white space \<open>ws\<close> (possibly none) and a path \<open>/tail\<close> running to the
  end of its line, each preceded by text \<open>pre\<close> in which the pattern does not occur, and
  followed at the end by such a text \<open>fin\<close>. These are the matches of the global scan.
  The loop rewrites every one of them, the endpoint line and any payload line alike,
  to \<open>data: \<close> (one space), the origin and the path, and copies the text between them.
\<close>

lemma every_occurrence_rewritten:
  assumes "TextDecoder_decode v
      = concat (map (\<lambda>(pre, ws, tail). pre @ str ''data:'' @ ws @ 0x2F # tail) segs) @ fin"
    and "\<forall>(pre, ws, tail) \<in> set segs.
      \<not> occurs pre \<and> (\<forall>u\<in>set ws. isWhiteSpace u) \<and> (\<forall>u\<in>set tail. notCRLF u)"
    and "\<forall>(pre, ws, tail) \<in> set (tl segs). pre \<noteq> [] \<and> atLineEnd pre"
    and "atLineEnd fin" and "\<not> occurs fin"
  shows "hd (pump origin True (v # vs))
    = TextEncoder_encode
        (concat (map (\<lambda>(pre, ws, tail). pre @ str ''data: '' @ origin @ 0x2F # tail) segs) @ fin)"
  unfolding pump_first_head assms(1)
  using String_replace_occurrences [OF assms(2-5)] by simp

lemma every_occurrence_rewritten_example:
  "hd (pump (str ''https://example.com'') True
        [bytes ''event: endpoint\<newline>data: /sse/message?sessionId=abc\<newline>\<newline>event: message\<newline>data:   /tmp/x\<newline>\<newline>'',
         bytes ''data: /later''])
   = bytes ''event: endpoint\<newline>data: https://example.com/sse/message?sessionId=abc\<newline>\<newline>event: message\<newline>data: https://example.com/tmp/x\<newline>\<newline>''"
proof -
  let ?v = "bytes ''event: endpoint\<newline>data: /sse/message?sessionId=abc\<newline>\<newline>event: message\<newline>data:   /tmp/x\<newline>\<newline>''"
  let ?segs = "[(str ''event: endpoint\<newline>'', str '' '', str ''sse/message?sessionId=abc''),
                (str ''\<newline>\<newline>event: message\<newline>'', str ''   '', str ''tmp/x'')]"
  let ?fin = "str ''\<newline>\<newline>''"
  have h1: "TextDecoder_decode ?v
      = concat (map (\<lambda>(pre, ws, tail). pre @ str ''data:'' @ ws @ 0x2F # tail) ?segs) @ ?fin"
    by (simp add: js_eval)
  have h2: "\<forall>(pre, ws, tail) \<in> set ?segs.
      \<not> occurs pre \<and> (\<forall>u\<in>set ws. isWhiteSpace u) \<and> (\<forall>u\<in>set tail. notCRLF u)"
    by (simp add: js_eval)
  have h3: "\<forall>(pre, ws, tail) \<in> set (tl ?segs). pre \<noteq> [] \<and> atLineEnd pre"
    by (simp add: js_eval atLineEnd_def)
  have h4: "atLineEnd ?fin" by (simp add: js_eval atLineEnd_def)
  have h5: "\<not> occurs ?fin" by (simp add: js_eval)
  have e: "TextEncoder_encode
        (concat (map (\<lambda>(pre, ws, tail). pre @ str ''data: '' @ str ''https://example.com'' @ 0x2F # tail) ?segs) @ ?fin)
      = bytes ''event: endpoint\<newline>data: https://example.com/sse/message?sessionId=abc\<newline>\<newline>event: message\<newline>data: https://example.com/tmp/x\<newline>\<newline>''"
    by (simp add: js_eval)
  show ?thesis
    using every_occurrence_rewritten [OF h1 h2 h3 h4 h5, of "str ''https://example.com''" "[bytes ''data: /later'']"]
    by (simp only: e)
qed

text \<open>
  A reader of a stream that ends in an error gets a prefix of its chunks. The loop maps
  prefixes to prefixes, so whatever prefix of the input the loop has read when a read
  fails, a reader of the new stream gets a prefix of \<open>pump origin True\<close> of the input.
\<close>

lemma pump_take: "pump origin firstChunk (take n vs) = take n (pump origin firstChunk vs)"
proof (induction vs arbitrary: n firstChunk)
  case Nil
  then show ?case by simp
next
  case (Cons v vs)
  then show ?case by (cases n) simp_all
qed

section \<open>Properties: the SSE rewrite filter as it stands\<close>

lemma normalized_sse:
  "normalized_path \<lparr>protocol = p, host = h, pathname = str ''/sse'', search = q\<rparr> = str ''/sse''"
  by (simp add: normalized_path_def strip_trailing_slashes_def str_def)

text \<open>
  For a response that has a body the function throws at line 80, whatever the stream, the
  status, the headers and the URL are; a response without a body is returned as it is.
\<close>

lemma rewrite_throws:
  "body resp = Some b \<Longrightarrow> rewriteSseResponseToAbsolute resp requestUrl = Inl ReferenceError"
  by (simp add: rewriteSseResponseToAbsolute_def request_binding_def)

lemma rewrite_no_body:
  "body resp = None \<Longrightarrow> rewriteSseResponseToAbsolute resp requestUrl = Inr resp"
  by (simp add: rewriteSseResponseToAbsolute_def)

text \<open>
  Claim C2 at the request \<open>GET https://worker.internal/sse\<close>, with any headers \<open>hs\<close>
  (a \<open>host\<close> header or none), answered by the SDK with a stream-open response that has a
  body \<open>b\<close>. The claim has the filter write the origin from the scheme of the request's URL
  and the \<open>host\<close> header. The handler throws \<open>ReferenceError\<close> instead: the expression
  that is to read the header, \<open>request.headers.get("host")\<close>, names a \<open>request\<close> that the
  filter does not have. No header is read, no origin is formed and no response is returned.
\<close>

theorem host_header_lookup_throws:
  "fetch
     \<lparr>serveSSE = (\<lambda>path request.
        \<lparr>body = Some b, status = 200, statusText = str ''OK'',
         response_headers = [(str ''content-type'', str ''text/event-stream'')]\<rparr>),
      serve = sv\<rparr>
     \<lparr>request_method = str ''GET'',
      url = \<lparr>protocol = str ''https:'', host = str ''worker.internal'', pathname = str ''/sse'',
             search = []\<rparr>,
      request_headers = hs\<rparr>
   = Inl ReferenceError"
  by (simp add: fetch_def normalized_sse Let_def rewrite_throws)


text \<open>
  Claim C4 at a stream whose first chunk is the endpoint event and whose second chunk is
  any chunk \<open>v\<close>. The claim has the bytes of \<open>v\<close> forwarded as they are. The function throws
  \<open>ReferenceError\<close> and returns no response: \<open>v\<close> is not forwarded at all.
\<close>

theorem later_chunk_is_not_forwarded:
  "rewriteSseResponseToAbsolute
     \<lparr>body = Some \<lparr>chunks = [bytes ''event: endpoint\<newline>data: /sse/message?sessionId=abc\<newline>\<newline>'', v],
                    ending = Closed\<rparr>,
      status = 200, statusText = str ''OK'',
      response_headers = [(str ''content-type'', str ''text/event-stream'')]\<rparr>
     \<lparr>protocol = str ''https:'', host = str ''example.com'', pathname = str ''/sse'', search = []\<rparr>
   = Inl ReferenceError"
  by (simp add: rewriteSseResponseToAbsolute_def request_binding_def)

text \<open>
  Claim C7 at the request \<open>GET https://example.com/sse\<close> with the header
  \<open>host: example.com\<close>, so that the origin the claim speaks of is \<open>https://example.com\<close>.
  The SDK answers with one chunk: the line \<open>data: /sse/message?sessionId=abc\<close> in the one
  case, the line \<open>data: https://example.com/sse/message?sessionId=abc\<close> in the other. The
  claim has the first line rewritten and the second passed on. In both cases the handler
  throws \<open>ReferenceError\<close> and no line is produced.
\<close>

theorem endpoint_line_is_not_produced:
  "fetch
     \<lparr>serveSSE = (\<lambda>path request.
        \<lparr>body = Some \<lparr>chunks = [bytes ''data: /sse/message?sessionId=abc\<newline>\<newline>''],
                       ending = Closed\<rparr>,
         status = 200, statusText = str ''OK'',
         response_headers = [(str ''content-type'', str ''text/event-stream'')]\<rparr>),
      serve = sv\<rparr>
     \<lparr>request_method = str ''GET'',
      url = \<lparr>protocol = str ''https:'', host = str ''example.com'', pathname = str ''/sse'',
             search = []\<rparr>,
      request_headers = [(str ''host'', str ''example.com'')]\<rparr>
   = Inl ReferenceError
   \<and> fetch
     \<lparr>serveSSE = (\<lambda>path request.
        \<lparr>body = Some \<lparr>chunks = [bytes ''data: https://example.com/sse/message?sessionId=abc\<newline>\<newline>''],
                       ending = Closed\<rparr>,
         status = 200, statusText = str ''OK'',
         response_headers = [(str ''content-type'', str ''text/event-stream'')]\<rparr>),
      serve = sv\<rparr>
     \<lparr>request_method = str ''GET'',
      url = \<lparr>protocol = str ''https:'', host = str ''example.com'', pathname = str ''/sse'',
             search = []\<rparr>,
      request_headers = [(str ''host'', str ''example.com'')]\<rparr>
   = Inl ReferenceError"
  by (simp add: fetch_def normalized_sse Let_def rewrite_throws)

text \<open>
  Claim C10 at a first chunk with two occurrences of the pattern, the endpoint line and a
  payload line with three spaces after \<open>data:\<close>. The claim has both rewritten, each with one
  space. The function throws \<open>ReferenceError\<close> before the replacement of line 94 is
  reached: neither occurrence is rewritten.
\<close>

theorem no_occurrence_is_rewritten:
  "rewriteSseResponseToAbsolute
     \<lparr>body = Some \<lparr>chunks = [bytes ''event: endpoint\<newline>data: /sse/message?sessionId=abc\<newline>\<newline>event: message\<newline>data:   /tmp/x\<newline>\<newline>''],
                    ending = Closed\<rparr>,
      status = 200, statusText = str ''OK'',
      response_headers = [(str ''content-type'', str ''text/event-stream'')]\<rparr>
     \<lparr>protocol = str ''https:'', host = str ''example.com'', pathname = str ''/sse'', search = []\<rparr>
   = Inl ReferenceError"
  by (simp add: rewriteSseResponseToAbsolute_def request_binding_def)

end
